theory Spec2Isabelle
  imports Main "HOL-Library.Word"
begin

unbundle bit_operations_syntax

section \<open>JavaScript strings and the platform text decoder\<close>

text \<open>
  A JavaScript string is a sequence of 16-bit code units; a chunk read from the serial
  port is a \<open>Uint8Array\<close>, a sequence of bytes.
\<close>

type_synonym byte = "8 word"
type_synonym code_unit = "16 word"
type_synonym jsstring = "code_unit list"

text \<open>ASCII literals of the source, as code units.\<close>

definition js :: "string \<Rightarrow> jsstring" where
  "js s = map (\<lambda>c. of_nat (of_char c)) s"

definition NL :: code_unit where
  "NL = 0x0A"

text \<open>
  \<open>String.prototype.indexOf\<close> with a one-unit needle: the index of the first
  occurrence, or \<open>-1\<close>.
\<close>

definition indexOf :: "jsstring \<Rightarrow> code_unit \<Rightarrow> int" where
  "indexOf s c = (if c \<in> set s then int (length (takeWhile (\<lambda>x. x \<noteq> c) s)) else - 1)"

text \<open>
  \<open>String.prototype.substring(start, end)\<close>: negative arguments count as 0, arguments
  beyond the length as the length, and the two are swapped when \<open>start > end\<close>.
  \<open>substring_from\<close> is the one-argument form.
\<close>

definition substring :: "jsstring \<Rightarrow> int \<Rightarrow> int \<Rightarrow> jsstring" where
  "substring s a b =
     (let a' = min (nat a) (length s); b' = min (nat b) (length s);
          lo = min a' b'; hi = max a' b'
      in take (hi - lo) (drop lo s))"

definition substring_from :: "jsstring \<Rightarrow> int \<Rightarrow> jsstring" where
  "substring_from s a = drop (min (nat a) (length s)) s"

text \<open>
  \<open>String.prototype.trim\<close> removes ECMAScript white space and line terminators from
  both ends.
\<close>

definition is_js_space :: "code_unit \<Rightarrow> bool" where
  "is_js_space c =
     (let n = unat c in
        (9 \<le> n \<and> n \<le> 13) \<or> n = 0x20 \<or> n = 0xA0 \<or> n = 0x1680
      \<or> (0x2000 \<le> n \<and> n \<le> 0x200A) \<or> n = 0x2028 \<or> n = 0x2029 \<or> n = 0x202F
      \<or> n = 0x205F \<or> n = 0x3000 \<or> n = 0xFEFF)"

definition trim :: "jsstring \<Rightarrow> jsstring" where
  "trim s = rev (dropWhile is_js_space (rev (dropWhile is_js_space s)))"

text \<open>
  \<open>new TextDecoder()\<close> is the platform's UTF-8 decoder; it is not code of this
  repository. It is modelled after the WHATWG Encoding Standard: a byte-wise state
  machine whose state survives between \<open>decode(value, {stream: true})\<close> calls, with
  errors replaced by U+FFFD and a leading byte order mark dropped.
\<close>

record text_decoder =
  code_point :: nat
  bytes_seen :: nat
  bytes_needed :: nat
  lower_boundary :: nat
  upper_boundary :: nat
  bom_seen :: bool

definition new_TextDecoder :: text_decoder where
  "new_TextDecoder = \<lparr>code_point = 0, bytes_seen = 0, bytes_needed = 0,
     lower_boundary = 0x80, upper_boundary = 0xBF, bom_seen = False\<rparr>"

definition utf8_reset :: "text_decoder \<Rightarrow> text_decoder" where
  "utf8_reset d = d\<lparr>code_point := 0, bytes_seen := 0, bytes_needed := 0,
     lower_boundary := 0x80, upper_boundary := 0xBF\<rparr>"

text \<open>The handler on a byte when no sequence is in progress.\<close>

definition utf8_lead :: "text_decoder \<Rightarrow> nat \<Rightarrow> text_decoder \<times> nat list" where
  "utf8_lead d b =
     (if b \<le> 0x7F then (d, [b])
      else if 0xC2 \<le> b \<and> b \<le> 0xDF then
        (d\<lparr>bytes_needed := 1, code_point := b AND 0x1F\<rparr>, [])
      else if 0xE0 \<le> b \<and> b \<le> 0xEF then
        (d\<lparr>lower_boundary := (if b = 0xE0 then 0xA0 else lower_boundary d),
           upper_boundary := (if b = 0xED then 0x9F else upper_boundary d),
           bytes_needed := 2, code_point := b AND 0xF\<rparr>, [])
      else if 0xF0 \<le> b \<and> b \<le> 0xF4 then
        (d\<lparr>lower_boundary := (if b = 0xF0 then 0x90 else lower_boundary d),
           upper_boundary := (if b = 0xF4 then 0x8F else upper_boundary d),
           bytes_needed := 3, code_point := b AND 0x7\<rparr>, [])
      else (d, [0xFFFD]))"

text \<open>
  The handler on any byte. A byte outside the expected range ends the sequence with an
  error and is processed again as a lead byte.
\<close>

definition utf8_handler :: "text_decoder \<Rightarrow> nat \<Rightarrow> text_decoder \<times> nat list" where
  "utf8_handler d b =
     (if bytes_needed d = 0 then utf8_lead d b
      else if b < lower_boundary d \<or> upper_boundary d < b then
        (let (d', out) = utf8_lead (utf8_reset d) b in (d', 0xFFFD # out))
      else
        (let cp = push_bit 6 (code_point d) OR (b AND 0x3F);
             seen = bytes_seen d + 1
         in if seen \<noteq> bytes_needed d then
              (d\<lparr>lower_boundary := 0x80, upper_boundary := 0xBF,
                 code_point := cp, bytes_seen := seen\<rparr>, [])
            else (utf8_reset d, [cp])))"

text \<open>Serialising the decoded code points: the first one is dropped if it is U+FEFF.\<close>

fun serialize :: "text_decoder \<Rightarrow> nat list \<Rightarrow> text_decoder \<times> jsstring" where
  "serialize d [] = (d, [])"
| "serialize d (cp # cps) =
     (if \<not> bom_seen d \<and> cp = 0xFEFF then serialize (d\<lparr>bom_seen := True\<rparr>) cps
      else
        (let (d', out) = serialize (d\<lparr>bom_seen := True\<rparr>) cps
         in (d', (if cp < 0x10000 then [of_nat cp]
                  else [of_nat (0xD800 + drop_bit 10 (cp - 0x10000)),
                        of_nat (0xDC00 + ((cp - 0x10000) AND 0x3FF))]) @ out)))"

text \<open>\<open>textDecoder.decode(value, {stream: true})\<close>: the decoder after the chunk and the text.\<close>

fun decode_stream :: "text_decoder \<Rightarrow> byte list \<Rightarrow> text_decoder \<times> jsstring" where
  "decode_stream d [] = (d, [])"
| "decode_stream d (b # bs) =
     (let (d1, cps) = utf8_handler d (unat b);
          (d2, out1) = serialize d1 cps;
          (d3, out2) = decode_stream d2 bs
      in (d3, out1 @ out2))"

section \<open>The serial hook (useSerial)\<close>

text \<open>
  The refs and the React state of the hook that the read loop and \<open>disconnect\<close> touch.
  \<open>port\<close> and \<open>reader\<close> hold handles of platform objects. A \<open>SerialMessage\<close>
  carries a fresh id and a time stamp from the platform besides its text; \<open>emitted\<close>
  logs the text of every message handed to \<open>setLastMessage\<close>, in order, and
  \<open>lastMessage\<close> is the text of the latest one.
\<close>

record serial_hook =
  isConnected :: bool
  isConnecting :: bool
  lastMessage :: "jsstring option"
  emitted :: "jsstring list"
  port :: "nat option"
  reader :: "nat option"
  keepReading :: bool
  readBuffer :: jsstring
  textDecoder :: text_decoder

text \<open>\<open>processLine\<close>: an empty line is falsy and dropped.\<close>

definition processLine :: "serial_hook \<Rightarrow> jsstring \<Rightarrow> serial_hook" where
  "processLine s line =
     (if line = [] then s
      else s\<lparr>lastMessage := Some line, emitted := emitted s @ [line]\<rparr>)"

text \<open>
  The inner \<open>while\<close> loop of \<open>readLoop\<close>: as long as \<open>indexOf\<close> finds a newline in
  the buffer, cut the text before it off the buffer, trim it and hand it to
  \<open>processLine\<close>.
\<close>

function frame_loop :: "serial_hook \<Rightarrow> serial_hook" where
  "frame_loop s =
     (let newlineIndex = indexOf (readBuffer s) NL
      in if newlineIndex \<noteq> - 1 then
           (let line = trim (substring (readBuffer s) 0 newlineIndex);
                s1 = s\<lparr>readBuffer := substring_from (readBuffer s) (newlineIndex + 1)\<rparr>
            in frame_loop (processLine s1 line))
         else s)"
  by pat_completeness auto

termination frame_loop
proof (relation "measure (\<lambda>s. length (readBuffer s))")
  show "wf (measure (\<lambda>s. length (readBuffer s)))" by simp
next
  fix s :: serial_hook and i line s1
  assume i: "i = indexOf (readBuffer s) NL" and ne: "i \<noteq> - 1"
    and s1: "s1 = s\<lparr>readBuffer := substring_from (readBuffer s) (i + 1)\<rparr>"
  from i ne have "NL \<in> set (readBuffer s)" by (simp add: indexOf_def split: if_splits)
  then have "readBuffer s \<noteq> []" by auto
  moreover from i ne have "0 \<le> i" by (simp add: indexOf_def split: if_splits)
  ultimately have "length (substring_from (readBuffer s) (i + 1)) < length (readBuffer s)"
    by (auto simp: substring_from_def min_def nat_add_distrib)
  with s1 show "(processLine s1 line, s) \<in> measure (\<lambda>s. length (readBuffer s))"
    by (simp add: processLine_def)
qed

declare frame_loop.simps [simp del]

text \<open>
  The \<open>if (value) { ... }\<close> block of \<open>readLoop\<close>: decode the chunk in streaming mode,
  append the text to the buffer and take the complete lines out. A \<open>Uint8Array\<close> is an
  object and so truthy, also when it is empty.
\<close>

definition feed :: "serial_hook \<Rightarrow> byte list \<Rightarrow> serial_hook" where
  "feed s chunk =
     (let (d, text) = decode_stream (textDecoder s) chunk
      in frame_loop (s\<lparr>textDecoder := d, readBuffer := readBuffer s @ text\<rparr>))"

text \<open>What \<open>reader.read()\<close> resolves to.\<close>

record read_result =
  rr_value :: "byte list option"
  rr_done :: bool

text \<open>
  The \<open>while (true)\<close> loop of \<open>readLoop\<close> in \<^verbatim>\<open>src/hooks/useSerial.ts\<close>, run on the
  results of the successive reads: it ends at the first result with \<open>done\<close>, after
  flushing the buffer. When the results run out the loop is waiting for the next read.
\<close>

fun read_until_done :: "serial_hook \<Rightarrow> read_result list \<Rightarrow> serial_hook" where
  "read_until_done s [] = s"
| "read_until_done s (r # rs) =
     (let s1 = (case rr_value r of Some chunk \<Rightarrow> feed s chunk | None \<Rightarrow> s)
      in if rr_done r then
           (if trim (readBuffer s1) \<noteq> [] then
              (processLine s1 (trim (readBuffer s1)))\<lparr>readBuffer := []\<rparr>
            else s1)
         else read_until_done s1 rs)"

text \<open>
  The same loop in the second copy of the hook (\<^verbatim>\<open>src/unnamed/part_002\<close>, the one with
  auto-connect): \<open>if (done) { break; }\<close>.
\<close>

fun read_until_done_v2 :: "serial_hook \<Rightarrow> read_result list \<Rightarrow> serial_hook" where
  "read_until_done_v2 s [] = s"
| "read_until_done_v2 s (r # rs) =
     (let s1 = (case rr_value r of Some chunk \<Rightarrow> feed s chunk | None \<Rightarrow> s)
      in if rr_done r then s1 else read_until_done_v2 s1 rs)"

text \<open>Feeding a sequence of chunks: the reads \<open>{value: chunk, done: false}\<close>.\<close>

definition chunk_reads :: "byte list list \<Rightarrow> read_result list" where
  "chunk_reads cs = map (\<lambda>c. \<lparr>rr_value = Some c, rr_done = False\<rparr>) cs"

text \<open>
  The state in which \<open>connect\<close> starts the read loop on port \<open>p\<close>: the buffer cleared,
  \<open>keepReading\<close> set. The decoder is the one made when the hook was created.
\<close>

definition connected :: "nat \<Rightarrow> text_decoder \<Rightarrow> serial_hook" where
  "connected p d = \<lparr>isConnected = True, isConnecting = False, lastMessage = None,
     emitted = [], port = Some p, reader = Some 0, keepReading = True,
     readBuffer = [], textDecoder = d\<rparr>"

subsection \<open>The claim's own words: segments of the decoded text\<close>

text \<open>
  The newline-terminated segments of a text, in order, and the text after the last
  newline. \<open>cur\<close> is the segment begun so far.
\<close>

fun terminated_segments :: "jsstring \<Rightarrow> jsstring \<Rightarrow> jsstring list" where
  "terminated_segments cur [] = []"
| "terminated_segments cur (c # cs) =
     (if c = NL then cur # terminated_segments [] cs
      else terminated_segments (cur @ [c]) cs)"

fun unterminated :: "jsstring \<Rightarrow> jsstring \<Rightarrow> jsstring" where
  "unterminated cur [] = cur"
| "unterminated cur (c # cs) =
     (if c = NL then unterminated [] cs else unterminated (cur @ [c]) cs)"

definition nonempty_trimmed :: "jsstring list \<Rightarrow> jsstring list" where
  "nonempty_trimmed segs = filter (\<lambda>l. l \<noteq> []) (map trim segs)"

text \<open>The decoding of a whole byte sequence by a decoder in state \<open>d\<close>.\<close>

definition decoded :: "text_decoder \<Rightarrow> byte list \<Rightarrow> jsstring" where
  "decoded d bytes = snd (decode_stream d bytes)"

subsection \<open>Disconnecting\<close>

text \<open>
  A JavaScript exception, and \<open>try { body } catch (e) { handler }\<close>. A call into the
  platform that the source guards with \<open>try\<close> takes its outcome as a parameter:
  \<open>Inl\<close> when the call throws (or its promise rejects), \<open>Inr\<close> when it returns.
\<close>

datatype exn = Exn string

definition try_catch :: "exn + 'a \<Rightarrow> (exn \<Rightarrow> exn + 'a) \<Rightarrow> exn + 'a" where
  "try_catch body handler = (case body of Inl e \<Rightarrow> handler e | Inr v \<Rightarrow> Inr v)"

text \<open>
  A callback handed to \<open>setTimeout\<close> with its delay in milliseconds. \<open>disconnect\<close>
  defers the teardown by 100 ms.
\<close>

datatype serial_timer = Teardown nat

text \<open>
  \<open>disconnect\<close>: stop the loop, cancel the reader inside \<open>try\<close>/\<open>catch\<close>, and schedule
  the teardown. The result is the state when the call returns and the timers it has set,
  or the exception it throws.
\<close>

definition disconnect :: "exn + unit \<Rightarrow> serial_hook \<Rightarrow> exn + serial_hook \<times> serial_timer list" where
  "disconnect cancel_result s =
     (let s1 = s\<lparr>keepReading := False\<rparr>
      in case (case reader s1 of
                 Some r \<Rightarrow> try_catch cancel_result (\<lambda>e. Inr ())
               | None \<Rightarrow> Inr ()) of
           Inl e \<Rightarrow> Inl e
         | Inr u \<Rightarrow> Inr (s1, [Teardown 100]))"

text \<open>The deferred callback: close the port inside \<open>try\<close>/\<open>catch\<close>, then reset the state.\<close>

definition teardown :: "exn + unit \<Rightarrow> serial_hook \<Rightarrow> exn + serial_hook" where
  "teardown close_result s =
     (case (case port s of
              Some p \<Rightarrow>
                (case try_catch close_result (\<lambda>e. Inr ()) of
                   Inl e \<Rightarrow> Inl e
                 | Inr u \<Rightarrow> Inr (s\<lparr>port := None\<rparr>))
            | None \<Rightarrow> Inr s) of
        Inl e \<Rightarrow> Inl e
      | Inr s1 \<Rightarrow> Inr (s1\<lparr>isConnected := False, readBuffer := []\<rparr>))"

text \<open>
  The adapter is disconnected when the hook reports \<open>isConnected = false\<close> and holds no
  port.
\<close>

definition is_disconnected :: "serial_hook \<Rightarrow> bool" where
  "is_disconnected s \<longleftrightarrow> \<not> isConnected s \<and> port s = None"

section \<open>The peer hook (useRemote)\<close>

datatype status = Disconnected | Connecting | Connected

text \<open>
  The PeerJS objects are mutable and shared with the library; the refs hold the flags the
  hook reads from them. Every object has a handle that tells it from the others.
  \<open>preferred\<close> is the \<open>preferredId\<close> that the peer's callbacks have captured.
\<close>

record peer_obj =
  peer_handle :: nat
  peer_id :: "jsstring option"
  preferred :: "jsstring option"
  disconnected :: bool
  destroyed :: bool

record conn_obj =
  conn_handle :: nat
  conn_peer :: jsstring
  conn_open :: bool

record remote_hook =
  myId :: jsstring
  remoteId :: jsstring
  connectionStatus :: status
  lastRemoteMessage :: "jsstring option"
  remote_error :: "jsstring option"
  peerRef :: "peer_obj option"
  connRef :: "conn_obj option"
  targetIdRef :: "jsstring option"
  mountedRef :: bool

datatype remote_timer = RetryHosting jsstring | RetryLoop

text \<open>The calls the hook makes on the library and the platform, as a trace.\<close>

datatype effect =
    NewPeer nat "jsstring option"
  | PeerReconnect nat
  | PeerDestroy nat
  | PeerConnect nat jsstring
  | ConnClose nat
  | ConnSend nat jsstring
  | ConnOn nat
  | SetTimeout remote_timer nat
  | SetInterval remote_timer nat

definition ID_PREFIX :: jsstring where
  "ID_PREFIX = js ''sg-v2-''"

text \<open>A string, possibly \<open>undefined\<close>, is truthy when it is present and not empty.\<close>

definition truthy :: "jsstring option \<Rightarrow> bool" where
  "truthy x = (case x of None \<Rightarrow> False | Some t \<Rightarrow> t \<noteq> [])"

text \<open>
  \<open>initializePeer(preferredId)\<close>; \<open>h\<close> is the handle of the object that \<open>new Peer\<close>
  returns. The identity is \<open>sg-v2-\<close> followed by the preferred id for a host and
  \<open>undefined\<close> for a client.
\<close>

definition initializePeer :: "nat \<Rightarrow> remote_hook \<Rightarrow> jsstring option \<Rightarrow> remote_hook \<times> effect list" where
  "initializePeer h s preferredId =
     (if peerRef s \<noteq> None then (s, [])
      else
        (let peerId = (case preferredId of
                         Some p \<Rightarrow> if p \<noteq> [] then Some (ID_PREFIX @ p) else None
                       | None \<Rightarrow> None);
             peer = \<lparr>peer_handle = h, peer_id = peerId, preferred = preferredId,
                     disconnected = False, destroyed = False\<rparr>
         in (s\<lparr>peerRef := Some peer\<rparr>, [NewPeer h peerId])))"

text \<open>\<open>setupConnectionHandlers(conn)\<close>: hold the connection, then install its four handlers.\<close>

definition setupConnectionHandlers :: "remote_hook \<Rightarrow> conn_obj \<Rightarrow> remote_hook \<times> effect list" where
  "setupConnectionHandlers s conn = (s\<lparr>connRef := Some conn\<rparr>, [ConnOn (conn_handle conn)])"

text \<open>What \<open>peerRef.current.connect(...)\<close> does: return an object, return nothing, or throw.\<close>

datatype connect_result = ConnectReturns "conn_obj option" | ConnectThrows

text \<open>\<open>attemptConnection(target)\<close>.\<close>

definition attemptConnection :: "connect_result \<Rightarrow> remote_hook \<Rightarrow> jsstring \<Rightarrow> remote_hook \<times> effect list" where
  "attemptConnection res s target =
     (case peerRef s of
        None \<Rightarrow> (s, [])
      | Some p \<Rightarrow>
          if destroyed p then (s, [])
          else
            (let fullTargetId = ID_PREFIX @ target;
                 cleanup = (case connRef s of
                              Some c \<Rightarrow> [ConnClose (conn_handle c)]
                            | None \<Rightarrow> []);
                 call = cleanup @ [PeerConnect (peer_handle p) fullTargetId]
             in case res of
                  ConnectThrows \<Rightarrow> (s, call)
                | ConnectReturns None \<Rightarrow> (s, call)
                | ConnectReturns (Some conn) \<Rightarrow>
                    (let (s', tr) = setupConnectionHandlers s conn in (s', call @ tr))))"

text \<open>\<open>connectToPeer(targetId)\<close>.\<close>

definition connectToPeer :: "connect_result \<Rightarrow> nat \<Rightarrow> remote_hook \<Rightarrow> jsstring \<Rightarrow> remote_hook \<times> effect list" where
  "connectToPeer res h s targetId =
     (if targetId = [] then (s, [])
      else
        (let s1 = s\<lparr>targetIdRef := Some targetId, connectionStatus := Connecting,
                     remoteId := targetId\<rparr>
         in if (case peerRef s1 of Some p \<Rightarrow> \<not> destroyed p | None \<Rightarrow> False)
            then attemptConnection res s1 targetId
            else initializePeer h s1 None))"

text \<open>
  The handlers of a peer \<open>p\<close>. \<open>open\<close>: publish the id and connect if a target is waiting.
  \<open>connection\<close> (host): close the held connection, if any, inside \<open>try\<close>/\<open>catch\<close> (a
  throw of \<open>close\<close> is swallowed, so the call is in the trace either way), then accept
  the new one. \<open>error\<close>: on \<open>unavailable-id\<close> with a preferred id, destroy the peer and
  retry after 1500 ms. \<open>disconnected\<close>: reconnect unless destroyed.
\<close>

definition on_peer_open :: "connect_result \<Rightarrow> remote_hook \<Rightarrow> peer_obj \<Rightarrow> jsstring \<Rightarrow> remote_hook \<times> effect list" where
  "on_peer_open res s p ident =
     (if \<not> mountedRef s then (s, [])
      else
        (let s1 = s\<lparr>myId := (if truthy (preferred p) then the (preferred p) else ident),
                     remote_error := None\<rparr>
         in if truthy (targetIdRef s1) then attemptConnection res s1 (the (targetIdRef s1))
            else (s1, [])))"

definition on_peer_connection :: "remote_hook \<Rightarrow> conn_obj \<Rightarrow> remote_hook \<times> effect list" where
  "on_peer_connection s conn =
     (let closing = (case connRef s of
                       Some c \<Rightarrow> [ConnClose (conn_handle c)]
                     | None \<Rightarrow> []);
          (s', tr) = setupConnectionHandlers s conn
      in (s', closing @ tr))"

text \<open>\<open>peer.destroy()\<close> leaves the object destroyed; the ref sees it if it holds that object.\<close>

definition mark_destroyed :: "remote_hook \<Rightarrow> peer_obj \<Rightarrow> remote_hook" where
  "mark_destroyed s p =
     (case peerRef s of
        Some q \<Rightarrow> if peer_handle q = peer_handle p then s\<lparr>peerRef := Some (q\<lparr>destroyed := True\<rparr>)\<rparr> else s
      | None \<Rightarrow> s)"

definition on_peer_error :: "remote_hook \<Rightarrow> peer_obj \<Rightarrow> jsstring \<Rightarrow> remote_hook \<times> effect list" where
  "on_peer_error s p err_type =
     (if err_type = js ''unavailable-id'' \<and> truthy (preferred p) then
        (mark_destroyed s p,
         [PeerDestroy (peer_handle p), SetTimeout (RetryHosting (the (preferred p))) 1500])
      else (s, []))"

definition on_peer_disconnected :: "remote_hook \<Rightarrow> peer_obj \<Rightarrow> remote_hook \<times> effect list" where
  "on_peer_disconnected s p =
     (if \<not> destroyed p then (s, [PeerReconnect (peer_handle p)]) else (s, []))"

text \<open>The callback of the collision retry: forget the peer and initialise again.\<close>

definition retry_hosting :: "nat \<Rightarrow> remote_hook \<Rightarrow> jsstring \<Rightarrow> remote_hook \<times> effect list" where
  "retry_hosting h s preferredId = initializePeer h (s\<lparr>peerRef := None\<rparr>) (Some preferredId)"

text \<open>\<open>startHosting(id)\<close>.\<close>

definition startHosting :: "nat \<Rightarrow> remote_hook \<Rightarrow> jsstring \<Rightarrow> remote_hook \<times> effect list" where
  "startHosting h s ident = initializePeer h s (Some ident)"

text \<open>
  The handlers of a connection. \<open>conn.peer.replace('sg-v2-', '')\<close> removes the first
  occurrence of the prefix. The payload of a data event counts when it has a truthy
  \<open>text\<close>; \<open>data\<close> is that field, if any.
\<close>

fun remove_first :: "jsstring \<Rightarrow> jsstring \<Rightarrow> jsstring" where
  "remove_first pat [] = []"
| "remove_first pat (c # cs) =
     (if take (length pat) (c # cs) = pat then drop (length pat) (c # cs)
      else c # remove_first pat cs)"

definition on_conn_open :: "remote_hook \<Rightarrow> conn_obj \<Rightarrow> remote_hook" where
  "on_conn_open s conn =
     s\<lparr>connectionStatus := Connected, remoteId := remove_first ID_PREFIX (conn_peer conn),
       remote_error := None\<rparr>"

definition on_conn_data :: "remote_hook \<Rightarrow> jsstring option \<Rightarrow> remote_hook" where
  "on_conn_data s data = (if truthy data then s\<lparr>lastRemoteMessage := data\<rparr> else s)"

definition on_conn_close :: "remote_hook \<Rightarrow> remote_hook" where
  "on_conn_close s = s\<lparr>connectionStatus := Disconnected, connRef := None\<rparr>"

definition on_conn_error :: "remote_hook \<Rightarrow> remote_hook" where
  "on_conn_error s = s\<lparr>connectionStatus := Disconnected\<rparr>"

text \<open>\<open>sendData(text)\<close>.\<close>

definition sendData :: "remote_hook \<Rightarrow> jsstring \<Rightarrow> remote_hook \<times> effect list" where
  "sendData s text =
     (case connRef s of
        Some c \<Rightarrow> if conn_open c then (s, [ConnSend (conn_handle c) text]) else (s, [])
      | None \<Rightarrow> (s, []))"

text \<open>
  The effect that starts the retry loop on mount, and one tick of the loop. \<open>res\<close> and
  \<open>h\<close> are the outcome of \<open>connect\<close> and the handle of a new peer, should the tick
  come to them.
\<close>

definition mount :: "remote_hook \<Rightarrow> remote_hook \<times> effect list" where
  "mount s = (s\<lparr>mountedRef := True\<rparr>, [SetInterval RetryLoop 2000])"

definition retryLoop :: "connect_result \<Rightarrow> nat \<Rightarrow> remote_hook \<Rightarrow> remote_hook \<times> effect list" where
  "retryLoop res h s =
     (if \<not> mountedRef s then (s, [])
      else if truthy (targetIdRef s) then
        (let isConnected = (case connRef s of Some c \<Rightarrow> conn_open c | None \<Rightarrow> False)
         in if \<not> isConnected then
              (if (case peerRef s of Some p \<Rightarrow> disconnected p \<and> \<not> destroyed p | None \<Rightarrow> False)
               then (s, [PeerReconnect (peer_handle (the (peerRef s)))])
               else if peerRef s = None then initializePeer h s None
               else if (case peerRef s of Some p \<Rightarrow> \<not> destroyed p | None \<Rightarrow> False)
               then attemptConnection res s (the (targetIdRef s))
               else (s, []))
            else (s, []))
      else (s, []))"

text \<open>What runs when a timer of the hook fires.\<close>

definition fire :: "connect_result \<Rightarrow> nat \<Rightarrow> remote_hook \<Rightarrow> remote_timer \<Rightarrow> remote_hook \<times> effect list" where
  "fire res h s t =
     (case t of
        RetryHosting preferredId \<Rightarrow> retry_hosting h s preferredId
      | RetryLoop \<Rightarrow> retryLoop res h s)"

text \<open>The hook before anything has happened.\<close>

definition initial_remote :: remote_hook where
  "initial_remote = \<lparr>myId = [], remoteId = [], connectionStatus = Disconnected,
     lastRemoteMessage = None, remote_error = None, peerRef = None, connRef = None,
     targetIdRef = None, mountedRef = True\<rparr>"

subsection \<open>Runs of a host session\<close>

text \<open>
  What reaches a host session: an inbound connection, or an event of the connection it
  holds (the library marks the object open before it reports \<open>open\<close>). A connection
  that the session has closed or replaced reports nothing further.
\<close>

datatype host_event = Inbound conn_obj | HeldOpen | HeldData "jsstring option" | HeldClose | HeldError

definition host_step :: "remote_hook \<Rightarrow> host_event \<Rightarrow> remote_hook \<times> effect list" where
  "host_step s ev =
     (case ev of
        Inbound conn \<Rightarrow> on_peer_connection s conn
      | HeldOpen \<Rightarrow>
          (case connRef s of
             Some c \<Rightarrow> (on_conn_open (s\<lparr>connRef := Some (c\<lparr>conn_open := True\<rparr>)\<rparr>) c, [])
           | None \<Rightarrow> (s, []))
      | HeldData d \<Rightarrow> (case connRef s of Some c \<Rightarrow> (on_conn_data s d, []) | None \<Rightarrow> (s, []))
      | HeldClose \<Rightarrow> (case connRef s of Some c \<Rightarrow> (on_conn_close s, []) | None \<Rightarrow> (s, []))
      | HeldError \<Rightarrow> (case connRef s of Some c \<Rightarrow> (on_conn_error s, []) | None \<Rightarrow> (s, [])))"

text \<open>
  The connections that are active for the session: those whose handlers it has installed
  and that it has not closed and that have not reported \<open>close\<close>. \<open>moments\<close> lists the
  active connections after each call of a trace.
\<close>

fun apply_effect :: "nat list \<Rightarrow> effect \<Rightarrow> nat list" where
  "apply_effect act (ConnOn h) = (if h \<in> set act then act else act @ [h])"
| "apply_effect act (ConnClose h) = removeAll h act"
| "apply_effect act e = act"

fun moments :: "nat list \<Rightarrow> effect list \<Rightarrow> nat list list" where
  "moments act [] = []"
| "moments act (e # es) = apply_effect act e # moments (apply_effect act e) es"

definition after_event :: "remote_hook \<Rightarrow> nat list \<Rightarrow> host_event \<Rightarrow> nat list" where
  "after_event s act ev =
     (case ev of
        HeldClose \<Rightarrow> (case connRef s of Some c \<Rightarrow> removeAll (conn_handle c) act | None \<Rightarrow> act)
      | _ \<Rightarrow> act)"

fun host_run :: "remote_hook \<Rightarrow> nat list \<Rightarrow> host_event list \<Rightarrow> nat list list" where
  "host_run s act [] = []"
| "host_run s act (ev # evs) =
     (let act0 = after_event s act ev;
          (s', tr) = host_step s ev;
          ms = moments act0 tr;
          act' = (if ms = [] then act0 else last ms)
      in act0 # ms @ host_run s' act' evs)"

text \<open>
  The invariant of a host run: no connection is active, or the only active one is the
  one the session holds.
\<close>

definition held_inv :: "remote_hook \<Rightarrow> nat list \<Rightarrow> bool" where
  "held_inv s act \<longleftrightarrow>
     act = [] \<or> (case connRef s of Some c \<Rightarrow> act = [conn_handle c] | None \<Rightarrow> False)"

section \<open>The router in the application (handleIncomingText)\<close>

datatype origin = Device | User

record SerialMessage =
  msg_id :: jsstring
  msg_text :: jsstring
  timestamp :: int
  origin :: origin

text \<open>
  The state of the application that ingestion touches. \<open>spoken\<close> logs the calls of
  \<open>speak\<close>, in order.
\<close>

record app =
  allowDuplicates :: bool
  isSpeakingEnabled :: bool
  isSosActive :: bool
  history :: "SerialMessage list"
  currentDisplayMessage :: "SerialMessage option"
  lastProcessedText :: jsstring
  spoken :: "jsstring list"

definition SOS_TRIGGER :: jsstring where
  "SOS_TRIGGER = js ''!!SOS_TRIGGER!!''"

text \<open>
  \<open>handleIncomingText(text, origin)\<close>; \<open>uuid\<close> and \<open>now\<close> are what
  \<open>crypto.randomUUID()\<close> and \<open>Date.now()\<close> return if the message is made.
\<close>

definition handleIncomingText :: "app \<Rightarrow> jsstring \<Rightarrow> origin \<Rightarrow> jsstring \<Rightarrow> int \<Rightarrow> app" where
  "handleIncomingText s text orig uuid now =
     (let s1 = (if text = SOS_TRIGGER \<and> orig = Device then s\<lparr>isSosActive := True\<rparr> else s)
      in if orig = Device \<and> \<not> allowDuplicates s1 \<and> text = lastProcessedText s1 then s1
         else
           (let newMessage = \<lparr>msg_id = uuid, msg_text = text, timestamp = now, origin = orig\<rparr>;
                s2 = (if orig = Device then s1\<lparr>lastProcessedText := text\<rparr> else s1);
                s3 = s2\<lparr>currentDisplayMessage := Some newMessage\<rparr>;
                s4 = (if isSpeakingEnabled s3 \<and> orig = Device \<and> text \<noteq> SOS_TRIGGER
                      then s3\<lparr>spoken := spoken s3 @ [text]\<rparr> else s3)
            in s4\<lparr>history := take 30 (newMessage # history s4)\<rparr>))"

definition handleClearHistory :: "app \<Rightarrow> app" where
  "handleClearHistory s = s\<lparr>history := [], lastProcessedText := [], currentDisplayMessage := None\<rparr>"

text \<open>The history log shows an entry as an emergency when its text is the sentinel.\<close>

definition flagged :: "SerialMessage \<Rightarrow> bool" where
  "flagged m \<longleftrightarrow> msg_text m = SOS_TRIGGER"

text \<open>The application at start, with the duplicates setting \<open>dup\<close>.\<close>

definition initial_app :: "bool \<Rightarrow> app" where
  "initial_app dup = \<lparr>allowDuplicates = dup, isSpeakingEnabled = True, isSosActive = False,
     history = [], currentDisplayMessage = None, lastProcessedText = [], spoken = []\<rparr>"

section \<open>Proofs: the line framer\<close>

lemma segments_no_NL:
  "NL \<notin> set xs \<Longrightarrow> terminated_segments cur xs = [] \<and> unterminated cur xs = cur @ xs"
  by (induction xs arbitrary: cur) auto

lemma segments_append:
  "terminated_segments cur (xs @ ys) =
     terminated_segments cur xs @ terminated_segments (unterminated cur xs) ys"
  by (induction xs arbitrary: cur) auto

lemma unterminated_append:
  "unterminated cur (xs @ ys) = unterminated (unterminated cur xs) ys"
  by (induction xs arbitrary: cur) auto

lemma segments_shift:
  "NL \<notin> set cur \<Longrightarrow> terminated_segments [] (cur @ ys) = terminated_segments cur ys"
  by (simp add: segments_append segments_no_NL)

lemma unterminated_shift:
  "NL \<notin> set cur \<Longrightarrow> unterminated [] (cur @ ys) = unterminated cur ys"
  by (simp add: unterminated_append segments_no_NL)

lemma unterminated_no_NL: "NL \<notin> set cur \<Longrightarrow> NL \<notin> set (unterminated cur xs)"
  by (induction xs arbitrary: cur) auto

lemma split_at_NL:
  assumes "NL \<in> set buf"
  shows "buf = takeWhile (\<lambda>x. x \<noteq> NL) buf @ NL # drop (Suc (length (takeWhile (\<lambda>x. x \<noteq> NL) buf))) buf"
proof -
  have "buf = takeWhile (\<lambda>x. x \<noteq> NL) buf @ dropWhile (\<lambda>x. x \<noteq> NL) buf" by simp
  moreover from assms have "dropWhile (\<lambda>x. x \<noteq> NL) buf \<noteq> []" by (simp add: dropWhile_eq_Nil_conv)
  moreover have "hd (dropWhile (\<lambda>x. x \<noteq> NL) buf) = NL"
    using assms hd_dropWhile[of "\<lambda>x. x \<noteq> NL" buf] calculation(2) by auto
  ultimately show ?thesis
    by (metis (no_types, lifting) Cons_nth_drop_Suc append_eq_conv_conj drop_all hd_drop_conv_nth not_le_imp_less dropWhile_eq_drop)
qed

lemma frame_loop_spec:
  "frame_loop s = s\<lparr>lastMessage := (case nonempty_trimmed (terminated_segments [] (readBuffer s)) of [] \<Rightarrow> lastMessage s | ls \<Rightarrow> Some (last ls)),
      emitted := emitted s @ nonempty_trimmed (terminated_segments [] (readBuffer s)),
      readBuffer := unterminated [] (readBuffer s)\<rparr>"
proof (induction s rule: frame_loop.induct)
  case (1 s)
  show ?case
  proof (cases "NL \<in> set (readBuffer s)")
    case False
    then show ?thesis
      by (subst frame_loop.simps) (simp add: indexOf_def segments_no_NL nonempty_trimmed_def)
  next
    case True
    define i where "i = length (takeWhile (\<lambda>x. x \<noteq> NL) (readBuffer s))"
    have ge: "i < length (readBuffer s)"
    proof (rule ccontr)
      assume "\<not> i < length (readBuffer s)"
      with length_takeWhile_le[of "\<lambda>x. x \<noteq> NL" "readBuffer s"]
      have "length (takeWhile (\<lambda>x. x \<noteq> NL) (readBuffer s)) = length (readBuffer s)"
        by (simp add: i_def)
      then have "takeWhile (\<lambda>x. x \<noteq> NL) (readBuffer s) = readBuffer s"
        by (metis takeWhile_eq_take take_all order_refl)
      then have "\<forall>x\<in>set (readBuffer s). x \<noteq> NL"
        by (simp add: takeWhile_eq_all_conv)
      with True show False by blast
    qed
    have idx: "indexOf (readBuffer s) NL = int i"
      using True by (simp add: indexOf_def i_def)
    have seg: "substring (readBuffer s) 0 (int i) = takeWhile (\<lambda>x. x \<noteq> NL) (readBuffer s)"
    proof -
      have "substring (readBuffer s) 0 (int i) = take i (readBuffer s)"
        using ge by (simp add: substring_def min_def)
      also have "\<dots> = takeWhile (\<lambda>x. x \<noteq> NL) (readBuffer s)"
        unfolding i_def by (rule takeWhile_eq_take[symmetric])
      finally show ?thesis .
    qed
    have rest: "substring_from (readBuffer s) (int i + 1) = drop (Suc i) (readBuffer s)"
      using ge by (simp add: substring_from_def min_def nat_add_distrib)
    have noNL: "NL \<notin> set (takeWhile (\<lambda>x. x \<noteq> NL) (readBuffer s))"
      by (auto dest: set_takeWhileD)
    have "terminated_segments [] (readBuffer s) =
          terminated_segments [] (takeWhile (\<lambda>x. x \<noteq> NL) (readBuffer s) @ NL # drop (Suc i) (readBuffer s))"
      using split_at_NL[OF True] by (simp add: i_def)
    then have segs: "terminated_segments [] (readBuffer s) =
          takeWhile (\<lambda>x. x \<noteq> NL) (readBuffer s) # terminated_segments [] (drop (Suc i) (readBuffer s))"
      using noNL by (simp add: segments_append segments_no_NL)
    have "unterminated [] (readBuffer s) =
          unterminated [] (takeWhile (\<lambda>x. x \<noteq> NL) (readBuffer s) @ NL # drop (Suc i) (readBuffer s))"
      using split_at_NL[OF True] by (simp add: i_def)
    then have unt: "unterminated [] (readBuffer s) = unterminated [] (drop (Suc i) (readBuffer s))"
      using noNL by (simp add: unterminated_append segments_no_NL)
    have ne: "indexOf (readBuffer s) NL \<noteq> - 1" using idx by simp
    note IH = "1.IH"[OF refl ne refl refl]
    show ?thesis
      apply (subst frame_loop.simps)
      apply (simp only: Let_def ne if_True simp_thms IH)
      apply (simp add: idx seg rest segs unt processLine_def nonempty_trimmed_def split: list.splits)
      done
  qed
qed


lemma decode_stream_append:
  "decode_stream d (a @ b) =
     (let (d1, o1) = decode_stream d a; (d2, o2) = decode_stream d1 b in (d2, o1 @ o2))"
  by (induction a arbitrary: d) (auto split: prod.splits)

lemma decoded_append:
  "decoded d (a @ b) = decoded d a @ decoded (fst (decode_stream d a)) b"
  by (simp add: decoded_def decode_stream_append split: prod.splits)

lemma decoder_append:
  "fst (decode_stream d (a @ b)) = fst (decode_stream (fst (decode_stream d a)) b)"
  by (simp add: decode_stream_append split: prod.splits)

lemma nonempty_trimmed_append:
  "nonempty_trimmed (xs @ ys) = nonempty_trimmed xs @ nonempty_trimmed ys"
  by (simp add: nonempty_trimmed_def)

lemma feed_spec:
  assumes "NL \<notin> set (readBuffer s)"
  shows "emitted (feed s c) =
           emitted s @ nonempty_trimmed (terminated_segments (readBuffer s) (decoded (textDecoder s) c))"
    and "readBuffer (feed s c) = unterminated (readBuffer s) (decoded (textDecoder s) c)"
    and "textDecoder (feed s c) = fst (decode_stream (textDecoder s) c)"
  using assms
  by (simp_all add: feed_def frame_loop_spec decoded_def segments_shift unterminated_shift
        split: prod.splits)

lemma read_chunks_foldl: "read_until_done s (chunk_reads cs) = foldl feed s cs"
  by (induction cs arbitrary: s) (simp_all add: chunk_reads_def)

lemma read_chunks_v2_foldl: "read_until_done_v2 s (chunk_reads cs) = foldl feed s cs"
  by (induction cs arbitrary: s) (simp_all add: chunk_reads_def)

lemma foldl_feed_spec:
  "NL \<notin> set (readBuffer s) \<Longrightarrow>
   emitted (foldl feed s cs) =
     emitted s @ nonempty_trimmed (terminated_segments (readBuffer s) (decoded (textDecoder s) (concat cs)))
   \<and> readBuffer (foldl feed s cs) = unterminated (readBuffer s) (decoded (textDecoder s) (concat cs))
   \<and> textDecoder (foldl feed s cs) = fst (decode_stream (textDecoder s) (concat cs))"
proof (induction cs arbitrary: s)
  case Nil
  then show ?case by (simp add: decoded_def nonempty_trimmed_def)
next
  case (Cons c cs)
  have clean: "NL \<notin> set (readBuffer (feed s c))"
    using Cons.prems by (simp add: feed_spec unterminated_no_NL)
  from Cons.IH[OF clean] show ?case
    using Cons.prems
    by (simp add: feed_spec decoded_append decoder_append segments_append unterminated_append
          nonempty_trimmed_append)
qed

lemma nonempty_trimmed_no_empty: "[] \<notin> set (nonempty_trimmed segs)"
  by (simp add: nonempty_trimmed_def)

text \<open>
  Claim C1. Start the read loop on a freshly connected port and feed it any sequence of
  byte chunks. The lines it emits are exactly the newline-terminated segments of the
  decoding of the concatenated bytes, each trimmed, without those that are empty after
  trimming, in order; so no emitted line is empty, their number is the number of such
  segments, and two splits of the same bytes into chunks emit the same lines, wherever
  the boundaries fall (also inside a multi-byte character, since the decoder keeps its
  state between chunks). Both copies of the hook behave alike here.
\<close>

theorem framer_emits_trimmed_segments:
  "emitted (read_until_done (connected p d) (chunk_reads cs)) =
     nonempty_trimmed (terminated_segments [] (decoded d (concat cs)))
   \<and> [] \<notin> set (emitted (read_until_done (connected p d) (chunk_reads cs)))
   \<and> (concat cs' = concat cs \<longrightarrow>
        emitted (read_until_done (connected p d) (chunk_reads cs')) =
        emitted (read_until_done (connected p d) (chunk_reads cs)))
   \<and> read_until_done_v2 (connected p d) (chunk_reads cs) =
       read_until_done (connected p d) (chunk_reads cs)"
proof -
  have "NL \<notin> set (readBuffer (connected p d))" by (simp add: connected_def)
  from foldl_feed_spec[OF this]
  have e: "emitted (read_until_done (connected p d) (chunk_reads xs)) =
     nonempty_trimmed (terminated_segments [] (decoded d (concat xs)))" for xs
    by (simp add: read_chunks_foldl connected_def)
  show ?thesis
    by (simp add: e nonempty_trimmed_no_empty) (simp add: read_chunks_foldl read_chunks_v2_foldl)
qed

text \<open>
  The bytes of the letter A, a euro sign (E2 82 AC), a newline, a space, a newline and
  the letter B, split inside the euro sign and unsplit: one line both times, the letter A
  followed by U+20AC.
\<close>

theorem framer_emits_trimmed_segments_witness:
  "concat [[0x41, 0xE2, 0x82, 0xAC, 0x0A, 0x20, 0x0A, 0x42 :: byte]] =
     concat [[0x41, 0xE2], [0x82, 0xAC, 0x0A, 0x20, 0x0A, 0x42]]
   \<and> emitted (read_until_done (connected 1 new_TextDecoder)
        (chunk_reads [[0x41, 0xE2], [0x82, 0xAC, 0x0A, 0x20, 0x0A, 0x42]])) = [[0x41, 0x20AC]]
   \<and> emitted (read_until_done (connected 1 new_TextDecoder)
        (chunk_reads [[0x41, 0xE2, 0x82, 0xAC, 0x0A, 0x20, 0x0A, 0x42]])) = [[0x41, 0x20AC]]"
  using framer_emits_trimmed_segments [of 1 new_TextDecoder
      "[[0x41, 0xE2], [0x82, 0xAC, 0x0A, 0x20, 0x0A, 0x42]]"
      "[[0x41, 0xE2, 0x82, 0xAC, 0x0A, 0x20, 0x0A, 0x42]]"]
  by (simp add: decoded_def new_TextDecoder_def utf8_handler_def utf8_lead_def utf8_reset_def
        nonempty_trimmed_def trim_def is_js_space_def NL_def)

section \<open>Proofs: ingestion and the dedup policy\<close>

lemma SOS_TRIGGER_nonempty: "SOS_TRIGGER \<noteq> []"
  by (simp add: SOS_TRIGGER_def js_def)

lemma ingest_fresh_device:
  assumes "allowDuplicates s \<or> text \<noteq> lastProcessedText s"
  shows "handleIncomingText s text Device uuid now =
           s\<lparr>isSosActive := (isSosActive s \<or> text = SOS_TRIGGER),
             lastProcessedText := text,
             currentDisplayMessage := Some \<lparr>msg_id = uuid, msg_text = text, timestamp = now, origin = Device\<rparr>,
             spoken := (if isSpeakingEnabled s \<and> text \<noteq> SOS_TRIGGER then spoken s @ [text] else spoken s),
             history := take 30 (\<lparr>msg_id = uuid, msg_text = text, timestamp = now, origin = Device\<rparr> # history s)\<rparr>"
proof (cases "text = SOS_TRIGGER")
  case True
  with assms show ?thesis
    by (auto simp: handleIncomingText_def Let_def)
next
  case False
  with assms show ?thesis
    by (cases "isSpeakingEnabled s") (auto simp: handleIncomingText_def Let_def)
qed

lemma ingest_user:
  "handleIncomingText s text User uuid now =
     s\<lparr>currentDisplayMessage := Some \<lparr>msg_id = uuid, msg_text = text, timestamp = now, origin = User\<rparr>,
       history := take 30 (\<lparr>msg_id = uuid, msg_text = text, timestamp = now, origin = User\<rparr> # history s)\<rparr>"
  by (simp add: handleIncomingText_def Let_def)

lemma ingest_duplicate:
  assumes "\<not> allowDuplicates s" "text = lastProcessedText s"
  shows "handleIncomingText s text Device uuid now =
           (if text = SOS_TRIGGER then s\<lparr>isSosActive := True\<rparr> else s)"
  using assms by (simp add: handleIncomingText_def)

text \<open>
  Clearing the history also resets the remembered text, so the next device text is
  accepted whatever it is, unless it is empty.
\<close>

lemma clear_history_resets:
  "history (handleClearHistory s) = [] \<and> lastProcessedText (handleClearHistory s) = []"
  by (simp add: handleClearHistory_def)

text \<open>
  Claim C2, as stated, fails. With dedup enabled, ingest the sentinel from the device
  twice in a row, starting from the initial application state: the first ingestion adds
  the flagged entry, the second leaves the history as it is, so no flagged entry is
  produced for the repeat.
\<close>

theorem sentinel_not_exempt_from_dedup:
  "\<not> allowDuplicates (handleIncomingText (initial_app False) SOS_TRIGGER Device (js ''id-1'') 1000)
   \<and> map flagged (history (handleIncomingText (initial_app False) SOS_TRIGGER Device (js ''id-1'') 1000))
       = [True]
   \<and> history (handleIncomingText
        (handleIncomingText (initial_app False) SOS_TRIGGER Device (js ''id-1'') 1000)
        SOS_TRIGGER Device (js ''id-2'') 2000)
      = history (handleIncomingText (initial_app False) SOS_TRIGGER Device (js ''id-1'') 1000)"
  by (simp add: handleIncomingText_def initial_app_def SOS_TRIGGER_nonempty flagged_def Let_def)

text \<open>
  Claim C2, amended. With dedup enabled, a device ingestion of the sentinel puts a new
  flagged entry at the head of the history whenever the remembered device text is not
  the sentinel; when the remembered device text is the sentinel, the history is
  unchanged.
\<close>

theorem sentinel_entry_unless_repeated:
  "\<not> allowDuplicates s \<Longrightarrow>
   (lastProcessedText s \<noteq> SOS_TRIGGER \<longrightarrow>
      (\<exists>m. flagged m \<and> origin m = Device
         \<and> history (handleIncomingText s SOS_TRIGGER Device uuid now) = take 30 (m # history s)
         \<and> hd (history (handleIncomingText s SOS_TRIGGER Device uuid now)) = m))
   \<and> (lastProcessedText s = SOS_TRIGGER \<longrightarrow>
      history (handleIncomingText s SOS_TRIGGER Device uuid now) = history s)"
  by (auto simp: handleIncomingText_def flagged_def Let_def)

theorem sentinel_entry_unless_repeated_witness:
  "\<not> allowDuplicates (initial_app False)
   \<and> lastProcessedText (initial_app False) \<noteq> SOS_TRIGGER
   \<and> map msg_text (history (handleIncomingText (initial_app False) SOS_TRIGGER Device (js ''id-1'') 1000))
       = [SOS_TRIGGER]
   \<and> lastProcessedText ((initial_app False)\<lparr>lastProcessedText := SOS_TRIGGER\<rparr>) = SOS_TRIGGER
   \<and> history (handleIncomingText ((initial_app False)\<lparr>lastProcessedText := SOS_TRIGGER\<rparr>)
        SOS_TRIGGER Device (js ''id-2'') 2000) = []"
proof -
  have a: "\<not> allowDuplicates (initial_app False)"
    by (simp add: initial_app_def)
  have b: "lastProcessedText (initial_app False) \<noteq> SOS_TRIGGER"
    using SOS_TRIGGER_nonempty by (simp add: initial_app_def)
  from sentinel_entry_unless_repeated [OF a, of "js ''id-1''" 1000] b
  obtain m where "flagged m"
    and "history (handleIncomingText (initial_app False) SOS_TRIGGER Device (js ''id-1'') 1000)
           = take 30 (m # history (initial_app False))"
    by blast
  then have c: "map msg_text (history (handleIncomingText (initial_app False) SOS_TRIGGER Device (js ''id-1'') 1000))
       = [SOS_TRIGGER]"
    by (simp add: flagged_def initial_app_def)
  have a': "\<not> allowDuplicates ((initial_app False)\<lparr>lastProcessedText := SOS_TRIGGER\<rparr>)"
    by (simp add: initial_app_def)
  from sentinel_entry_unless_repeated [OF a', of "js ''id-2''" 2000]
  have d: "history (handleIncomingText ((initial_app False)\<lparr>lastProcessedText := SOS_TRIGGER\<rparr>)
        SOS_TRIGGER Device (js ''id-2'') 2000) = []"
    by (simp add: initial_app_def)
  from a b c d show ?thesis by simp
qed

text \<open>
  Claim C3. Call an ingestion a duplicate when the origin is the device, duplicates are
  not allowed and the text is the remembered one. A duplicate changes neither the
  history nor the displayed message nor what is spoken nor the remembered text. Any
  other ingestion makes a new message, displays it and puts it at the head of the
  history, which is cut to its first 30 entries. The remembered text changes only on
  a device ingestion, which stores its text, and a user ingestion is never a duplicate.
\<close>

theorem ingest_dedup_policy:
  "let s' = handleIncomingText s text orig uuid now;
       m = \<lparr>msg_id = uuid, msg_text = text, timestamp = now, origin = orig\<rparr>;
       duplicate = (orig = Device \<and> \<not> allowDuplicates s \<and> text = lastProcessedText s)
   in (duplicate \<longrightarrow>
         history s' = history s \<and> currentDisplayMessage s' = currentDisplayMessage s
         \<and> spoken s' = spoken s \<and> lastProcessedText s' = lastProcessedText s)
      \<and> (\<not> duplicate \<longrightarrow>
         history s' = take 30 (m # history s) \<and> currentDisplayMessage s' = Some m
         \<and> length (history s') \<le> 30)
      \<and> (lastProcessedText s' \<noteq> lastProcessedText s \<longrightarrow> orig = Device)
      \<and> (orig = Device \<and> \<not> duplicate \<longrightarrow> lastProcessedText s' = text)
      \<and> (orig = User \<longrightarrow> \<not> duplicate \<and> history s' = take 30 (m # history s))"
proof (cases orig)
  case User
  show ?thesis
    unfolding Let_def User ingest_user by simp
next
  case Device
  show ?thesis
  proof (cases "\<not> allowDuplicates s \<and> text = lastProcessedText s")
    case True
    then have dup: "handleIncomingText s text Device uuid now =
           (if text = SOS_TRIGGER then s\<lparr>isSosActive := True\<rparr> else s)"
      by (simp add: ingest_duplicate)
    show ?thesis
      unfolding Let_def Device dup using True by simp
  next
    case False
    then have "allowDuplicates s \<or> text \<noteq> lastProcessedText s" by simp
    note fresh = ingest_fresh_device[OF this, of uuid now]
    from False have nd: "(Device = Device \<and> \<not> allowDuplicates s \<and> text = lastProcessedText s) = False"
      by simp
    show ?thesis
      unfolding Let_def Device fresh nd by simp
  qed
qed

text \<open>
  A repeated device text, a new device text and a user text that repeats the remembered
  device text, each on a state that remembers \<open>Hello\<close>.
\<close>

theorem ingest_dedup_policy_witness:
  "let s0 = (initial_app False)\<lparr>lastProcessedText := js ''Hello''\<rparr>;
       s1 = handleIncomingText s0 (js ''Hello'') Device (js ''id-2'') 2000;
       s2 = handleIncomingText s0 (js ''World'') Device (js ''id-3'') 3000;
       s3 = handleIncomingText s0 (js ''Hello'') User (js ''id-4'') 4000
   in \<not> allowDuplicates s0 \<and> js ''Hello'' = lastProcessedText s0
      \<and> js ''World'' \<noteq> lastProcessedText s0
      \<and> history s1 = history s0 \<and> lastProcessedText s1 = lastProcessedText s0
      \<and> map msg_id (history s2) = [js ''id-3''] \<and> lastProcessedText s2 = js ''World''
      \<and> map msg_id (history s3) = [js ''id-4''] \<and> lastProcessedText s3 = js ''Hello''"
  using ingest_dedup_policy [of "(initial_app False)\<lparr>lastProcessedText := js ''Hello''\<rparr>"
      "js ''Hello''" Device "js ''id-2''" 2000]
    ingest_dedup_policy [of "(initial_app False)\<lparr>lastProcessedText := js ''Hello''\<rparr>"
      "js ''World''" Device "js ''id-3''" 3000]
    ingest_dedup_policy [of "(initial_app False)\<lparr>lastProcessedText := js ''Hello''\<rparr>"
      "js ''Hello''" User "js ''id-4''" 4000]
  by (simp add: Let_def initial_app_def js_def)

text \<open>
  Claim C10. The alarm flag is set before the dedup check: every device ingestion of the
  sentinel leaves the alarm active, and when the sentinel repeats the remembered text with
  dedup enabled, setting the flag is all that happens, so the history and the displayed
  message stay as they were.
\<close>

theorem sos_alarm_before_dedup:
  "isSosActive (handleIncomingText s SOS_TRIGGER Device uuid now)
   \<and> (\<not> allowDuplicates s \<and> lastProcessedText s = SOS_TRIGGER \<longrightarrow>
        handleIncomingText s SOS_TRIGGER Device uuid now = s\<lparr>isSosActive := True\<rparr>)"
  by (simp add: handleIncomingText_def Let_def)

text \<open>
  The sentinel arrives, the user dismisses the alarm, the sentinel arrives again: the
  alarm is active again, the history and the display are unchanged.
\<close>

theorem sos_alarm_before_dedup_witness:
  "let s1 = handleIncomingText (initial_app False) SOS_TRIGGER Device (js ''id-1'') 1000;
       s2 = s1\<lparr>isSosActive := False\<rparr>;
       s3 = handleIncomingText s2 SOS_TRIGGER Device (js ''id-2'') 2000
   in \<not> allowDuplicates s2 \<and> lastProcessedText s2 = SOS_TRIGGER \<and> \<not> isSosActive s2
      \<and> isSosActive s3 \<and> history s3 = history s2
      \<and> currentDisplayMessage s3 = currentDisplayMessage s2"
  using sos_alarm_before_dedup [of "(handleIncomingText (initial_app False) SOS_TRIGGER Device (js ''id-1'') 1000)\<lparr>isSosActive := False\<rparr>"
      "js ''id-2''" 2000]
  by (simp add: Let_def initial_app_def handleIncomingText_def SOS_TRIGGER_nonempty)

section \<open>Proofs: the peer hook\<close>

text \<open>
  Claim C7. \<open>sendData\<close> forwards the text over the held connection when that reports
  itself open, and does nothing when there is no connection or it is not open; the state
  of the hook is the same after the call in every case, so nothing is buffered.
\<close>

theorem send_only_when_open:
  "(\<forall>c. connRef s = Some c \<and> conn_open c \<longrightarrow>
        sendData s text = (s, [ConnSend (conn_handle c) text]))
   \<and> (connRef s = None \<or> (\<exists>c. connRef s = Some c \<and> \<not> conn_open c) \<longrightarrow>
        sendData s text = (s, []))
   \<and> fst (sendData s text) = s"
  by (auto simp: sendData_def split: option.splits)

theorem send_only_when_open_witness:
  "sendData (initial_remote\<lparr>connRef := Some \<lparr>conn_handle = 3, conn_peer = js ''sg-v2-1234'', conn_open = True\<rparr>\<rparr>) (js ''Hello'')
     = (initial_remote\<lparr>connRef := Some \<lparr>conn_handle = 3, conn_peer = js ''sg-v2-1234'', conn_open = True\<rparr>\<rparr>,
        [ConnSend 3 (js ''Hello'')])
   \<and> sendData (initial_remote\<lparr>connRef := Some \<lparr>conn_handle = 3, conn_peer = js ''sg-v2-1234'', conn_open = False\<rparr>\<rparr>) (js ''Hello'')
     = (initial_remote\<lparr>connRef := Some \<lparr>conn_handle = 3, conn_peer = js ''sg-v2-1234'', conn_open = False\<rparr>\<rparr>, [])
   \<and> sendData initial_remote (js ''Hello'') = (initial_remote, [])"
  using send_only_when_open [of "initial_remote\<lparr>connRef := Some \<lparr>conn_handle = 3, conn_peer = js ''sg-v2-1234'', conn_open = True\<rparr>\<rparr>" "js ''Hello''"]
    send_only_when_open [of "initial_remote\<lparr>connRef := Some \<lparr>conn_handle = 3, conn_peer = js ''sg-v2-1234'', conn_open = False\<rparr>\<rparr>" "js ''Hello''"]
    send_only_when_open [of initial_remote "js ''Hello''"]
  by (simp add: initial_remote_def)

text \<open>
  Claim C6. A host that registered under a non-empty preferred id and is told
  \<open>unavailable-id\<close> destroys its peer and sets one timer of 1500 ms; whatever the state
  is when that timer fires, the hook then registers a new peer under the same identity,
  the prefix followed by the same preferred id.
\<close>

theorem collision_retries_same_identity:
  "pid \<noteq> [] \<Longrightarrow> peerRef s = None \<Longrightarrow>
   (let (s1, tr1) = startHosting h s pid
    in tr1 = [NewPeer h (Some (ID_PREFIX @ pid))]
       \<and> (\<exists>p. peerRef s1 = Some p \<and> peer_handle p = h \<and> peer_id p = Some (ID_PREFIX @ pid)
            \<and> (let (s2, tr2) = on_peer_error s1 p (js ''unavailable-id'')
                in tr2 = [PeerDestroy h, SetTimeout (RetryHosting pid) 1500]
                   \<and> map_option destroyed (peerRef s2) = Some True
                   \<and> (\<forall>s3. snd (fire res h' s3 (RetryHosting pid)) = [NewPeer h' (Some (ID_PREFIX @ pid))]
                         \<and> map_option peer_id (peerRef (fst (fire res h' s3 (RetryHosting pid))))
                             = Some (Some (ID_PREFIX @ pid))))))"
  by (simp add: startHosting_def initializePeer_def truthy_def on_peer_error_def fire_def
        retry_hosting_def mark_destroyed_def Let_def)

theorem collision_retries_same_identity_witness:
  "js ''1234'' \<noteq> [] \<and> peerRef initial_remote = None
   \<and> snd (startHosting 1 initial_remote (js ''1234'')) = [NewPeer 1 (Some (js ''sg-v2-1234''))]
   \<and> snd (on_peer_error (fst (startHosting 1 initial_remote (js ''1234'')))
             (the (peerRef (fst (startHosting 1 initial_remote (js ''1234'')))))
             (js ''unavailable-id''))
       = [PeerDestroy 1, SetTimeout (RetryHosting (js ''1234'')) 1500]
   \<and> snd (fire ConnectThrows 2
             (fst (on_peer_error (fst (startHosting 1 initial_remote (js ''1234'')))
                (the (peerRef (fst (startHosting 1 initial_remote (js ''1234'')))))
                (js ''unavailable-id'')))
             (RetryHosting (js ''1234'')))
       = [NewPeer 2 (Some (js ''sg-v2-1234''))]"
  using collision_retries_same_identity [of "js ''1234''" initial_remote 1 ConnectThrows 2]
  by (simp add: initial_remote_def js_def ID_PREFIX_def startHosting_def initializePeer_def
        truthy_def on_peer_error_def fire_def retry_hosting_def mark_destroyed_def Let_def)

text \<open>
  Claim C4, as stated, fails. A mounted client with the target 1234, no connection and
  an endpoint that exists but is destroyed: the connection is not open, yet the tick does
  nothing, none of the three actions.
\<close>

theorem retry_tick_skips_destroyed_endpoint:
  "retryLoop (ConnectReturns None) 7
     (initial_remote\<lparr>targetIdRef := Some (js ''1234''),
        peerRef := Some \<lparr>peer_handle = 1, peer_id = None, preferred = None,
                         disconnected = True, destroyed = True\<rparr>\<rparr>)
   = (initial_remote\<lparr>targetIdRef := Some (js ''1234''),
        peerRef := Some \<lparr>peer_handle = 1, peer_id = None, preferred = None,
                         disconnected = True, destroyed = True\<rparr>\<rparr>, [])"
  by (simp add: retryLoop_def initial_remote_def truthy_def js_def)

lemma retry_guard:
  "retryLoop res h s =
     (if mountedRef s \<and> truthy (targetIdRef s)
         \<and> \<not> (case connRef s of Some c \<Rightarrow> conn_open c | None \<Rightarrow> False)
      then (case peerRef s of
              None \<Rightarrow> initializePeer h s None
            | Some p \<Rightarrow>
                if destroyed p then (s, [])
                else if disconnected p then (s, [PeerReconnect (peer_handle p)])
                else attemptConnection res s (the (targetIdRef s)))
      else (s, []))"
  by (cases "peerRef s") (simp_all add: retryLoop_def Let_def)

text \<open>
  Claim C4, amended. The loop is started with an interval of 2000 ms. A tick does nothing
  unless the hook is mounted and a target is set, and nothing when the held connection
  is open. Otherwise: a disconnected endpoint that is not destroyed is asked to
  reconnect; with no endpoint, a client endpoint is created; an endpoint that is neither
  disconnected nor destroyed makes one outbound attempt to the prefixed target (after
  closing a stale held connection, and followed by the installation of the handlers when
  an object is returned); an endpoint that is destroyed is left alone.
\<close>

theorem retry_tick_actions:
  "snd (mount s0) = [SetInterval RetryLoop 2000]
   \<and> (\<not> mountedRef s \<or> \<not> truthy (targetIdRef s) \<longrightarrow> retryLoop res h s = (s, []))
   \<and> ((\<exists>c. connRef s = Some c \<and> conn_open c) \<longrightarrow> retryLoop res h s = (s, []))
   \<and> (mountedRef s \<and> targetIdRef s = Some target \<and> target \<noteq> []
        \<and> (connRef s = None \<or> (\<exists>c. connRef s = Some c \<and> \<not> conn_open c)) \<longrightarrow>
        (\<forall>p. peerRef s = Some p \<and> disconnected p \<and> \<not> destroyed p \<longrightarrow>
              retryLoop res h s = (s, [PeerReconnect (peer_handle p)]))
        \<and> (peerRef s = None \<longrightarrow>
              retryLoop res h s =
                (s\<lparr>peerRef := Some \<lparr>peer_handle = h, peer_id = None, preferred = None,
                       disconnected = False, destroyed = False\<rparr>\<rparr>, [NewPeer h None]))
        \<and> (\<forall>p. peerRef s = Some p \<and> \<not> disconnected p \<and> \<not> destroyed p \<longrightarrow>
              retryLoop res h s = attemptConnection res s target
              \<and> snd (retryLoop res h s) =
                  (case connRef s of Some c \<Rightarrow> [ConnClose (conn_handle c)] | None \<Rightarrow> [])
                  @ [PeerConnect (peer_handle p) (ID_PREFIX @ target)]
                  @ (case res of ConnectReturns (Some conn) \<Rightarrow> [ConnOn (conn_handle conn)] | _ \<Rightarrow> []))
        \<and> (\<forall>p. peerRef s = Some p \<and> destroyed p \<longrightarrow> retryLoop res h s = (s, [])))"
proof -
  have a: "snd (mount s0) = [SetInterval RetryLoop 2000]"
    by (simp add: mount_def)
  have b: "\<not> mountedRef s \<or> \<not> truthy (targetIdRef s) \<longrightarrow> retryLoop res h s = (s, [])"
    by (auto simp: retry_guard)
  have c: "(\<exists>c. connRef s = Some c \<and> conn_open c) \<longrightarrow> retryLoop res h s = (s, [])"
    by (auto simp: retry_guard)
  have d: "mountedRef s \<and> targetIdRef s = Some target \<and> target \<noteq> []
        \<and> (connRef s = None \<or> (\<exists>c. connRef s = Some c \<and> \<not> conn_open c)) \<longrightarrow>
        (\<forall>p. peerRef s = Some p \<and> disconnected p \<and> \<not> destroyed p \<longrightarrow>
              retryLoop res h s = (s, [PeerReconnect (peer_handle p)]))
        \<and> (peerRef s = None \<longrightarrow>
              retryLoop res h s =
                (s\<lparr>peerRef := Some \<lparr>peer_handle = h, peer_id = None, preferred = None,
                       disconnected = False, destroyed = False\<rparr>\<rparr>, [NewPeer h None]))
        \<and> (\<forall>p. peerRef s = Some p \<and> \<not> disconnected p \<and> \<not> destroyed p \<longrightarrow>
              retryLoop res h s = attemptConnection res s target
              \<and> snd (retryLoop res h s) =
                  (case connRef s of Some c \<Rightarrow> [ConnClose (conn_handle c)] | None \<Rightarrow> [])
                  @ [PeerConnect (peer_handle p) (ID_PREFIX @ target)]
                  @ (case res of ConnectReturns (Some conn) \<Rightarrow> [ConnOn (conn_handle conn)] | _ \<Rightarrow> []))
        \<and> (\<forall>p. peerRef s = Some p \<and> destroyed p \<longrightarrow> retryLoop res h s = (s, []))"
  proof (intro impI, elim conjE)
    assume m: "mountedRef s" and t: "targetIdRef s = Some target" "target \<noteq> []"
      and nc: "connRef s = None \<or> (\<exists>c. connRef s = Some c \<and> \<not> conn_open c)"
    from nc have nopen: "\<not> (case connRef s of Some c \<Rightarrow> conn_open c | None \<Rightarrow> False)"
      by (auto split: option.splits)
    have g: "retryLoop res h s =
      (case peerRef s of
              None \<Rightarrow> initializePeer h s None
            | Some p \<Rightarrow>
                if destroyed p then (s, [])
                else if disconnected p then (s, [PeerReconnect (peer_handle p)])
                else attemptConnection res s target)"
      using m t nopen by (simp add: retry_guard truthy_def split: option.splits)
    show "(\<forall>p. peerRef s = Some p \<and> disconnected p \<and> \<not> destroyed p \<longrightarrow>
              retryLoop res h s = (s, [PeerReconnect (peer_handle p)]))
        \<and> (peerRef s = None \<longrightarrow>
              retryLoop res h s =
                (s\<lparr>peerRef := Some \<lparr>peer_handle = h, peer_id = None, preferred = None,
                       disconnected = False, destroyed = False\<rparr>\<rparr>, [NewPeer h None]))
        \<and> (\<forall>p. peerRef s = Some p \<and> \<not> disconnected p \<and> \<not> destroyed p \<longrightarrow>
              retryLoop res h s = attemptConnection res s target
              \<and> snd (retryLoop res h s) =
                  (case connRef s of Some c \<Rightarrow> [ConnClose (conn_handle c)] | None \<Rightarrow> [])
                  @ [PeerConnect (peer_handle p) (ID_PREFIX @ target)]
                  @ (case res of ConnectReturns (Some conn) \<Rightarrow> [ConnOn (conn_handle conn)] | _ \<Rightarrow> []))
        \<and> (\<forall>p. peerRef s = Some p \<and> destroyed p \<longrightarrow> retryLoop res h s = (s, []))"
      unfolding g
      by (auto simp: initializePeer_def truthy_def attemptConnection_def setupConnectionHandlers_def
            Let_def split: option.splits connect_result.splits)
  qed
  from a b c d show ?thesis by blast
qed

text \<open>
  A client with the target 1234 whose connection was closed: with a healthy endpoint the
  tick makes one attempt to \<open>sg-v2-1234\<close>; with a disconnected endpoint it reconnects;
  with none it creates one; with a destroyed one it does nothing. With an open connection,
  or without a target, it does nothing either.
\<close>

theorem retry_tick_actions_witness:
  "snd (retryLoop (ConnectReturns (Some \<lparr>conn_handle = 5, conn_peer = js ''sg-v2-1234'', conn_open = False\<rparr>)) 7
         (initial_remote\<lparr>targetIdRef := Some (js ''1234''),
            peerRef := Some \<lparr>peer_handle = 1, peer_id = None, preferred = None,
                             disconnected = False, destroyed = False\<rparr>\<rparr>))
     = [PeerConnect 1 (js ''sg-v2-1234''), ConnOn 5]
   \<and> snd (retryLoop ConnectThrows 7
         (initial_remote\<lparr>targetIdRef := Some (js ''1234''),
            peerRef := Some \<lparr>peer_handle = 1, peer_id = None, preferred = None,
                             disconnected = True, destroyed = False\<rparr>\<rparr>))
     = [PeerReconnect 1]
   \<and> snd (retryLoop ConnectThrows 7 (initial_remote\<lparr>targetIdRef := Some (js ''1234'')\<rparr>))
     = [NewPeer 7 None]
   \<and> snd (retryLoop ConnectThrows 7
         (initial_remote\<lparr>targetIdRef := Some (js ''1234''),
            peerRef := Some \<lparr>peer_handle = 1, peer_id = None, preferred = None,
                             disconnected = False, destroyed = True\<rparr>\<rparr>))
     = []
   \<and> snd (retryLoop ConnectThrows 7
         (initial_remote\<lparr>targetIdRef := Some (js ''1234''),
            connRef := Some \<lparr>conn_handle = 5, conn_peer = js ''sg-v2-1234'', conn_open = True\<rparr>\<rparr>))
     = []
   \<and> snd (retryLoop ConnectThrows 7 initial_remote) = []"
  using retry_tick_actions [of initial_remote
      "initial_remote\<lparr>targetIdRef := Some (js ''1234''),
            peerRef := Some \<lparr>peer_handle = 1, peer_id = None, preferred = None,
                             disconnected = False, destroyed = False\<rparr>\<rparr>"
      "ConnectReturns (Some \<lparr>conn_handle = 5, conn_peer = js ''sg-v2-1234'', conn_open = False\<rparr>)" 7
      "js ''1234''"]
    retry_tick_actions [of initial_remote
      "initial_remote\<lparr>targetIdRef := Some (js ''1234''),
            peerRef := Some \<lparr>peer_handle = 1, peer_id = None, preferred = None,
                             disconnected = True, destroyed = False\<rparr>\<rparr>"
      ConnectThrows 7 "js ''1234''"]
    retry_tick_actions [of initial_remote "initial_remote\<lparr>targetIdRef := Some (js ''1234'')\<rparr>"
      ConnectThrows 7 "js ''1234''"]
    retry_tick_actions [of initial_remote
      "initial_remote\<lparr>targetIdRef := Some (js ''1234''),
            peerRef := Some \<lparr>peer_handle = 1, peer_id = None, preferred = None,
                             disconnected = False, destroyed = True\<rparr>\<rparr>"
      ConnectThrows 7 "js ''1234''"]
    retry_tick_actions [of initial_remote
      "initial_remote\<lparr>targetIdRef := Some (js ''1234''),
            connRef := Some \<lparr>conn_handle = 5, conn_peer = js ''sg-v2-1234'', conn_open = True\<rparr>\<rparr>"
      ConnectThrows 7 "js ''1234''"]
    retry_tick_actions [of initial_remote initial_remote ConnectThrows 7 "js ''1234''"]
  by (simp add: initial_remote_def js_def ID_PREFIX_def truthy_def retryLoop_def
        attemptConnection_def setupConnectionHandlers_def initializePeer_def Let_def)

lemma held_inv_iff:
  "held_inv s act \<longleftrightarrow> act = [] \<or> (\<exists>c. connRef s = Some c \<and> act = [conn_handle c])"
  by (auto simp: held_inv_def split: option.splits)

lemma host_step_inbound:
  "host_step s (Inbound conn) =
     (s\<lparr>connRef := Some conn\<rparr>,
      (case connRef s of Some c \<Rightarrow> [ConnClose (conn_handle c)] | None \<Rightarrow> []) @ [ConnOn (conn_handle conn)])"
  by (simp add: host_step_def on_peer_connection_def setupConnectionHandlers_def)

lemma host_run_at_most_one:
  "held_inv s act \<Longrightarrow> \<forall>m \<in> set (host_run s act evs). length m \<le> 1"
proof (induction evs arbitrary: s act)
  case Nil
  then show ?case by simp
next
  case (Cons ev evs)
  show ?case
  proof (cases ev)
    case (Inbound conn)
    have ms: "moments act (snd (host_step s (Inbound conn))) =
                (case connRef s of Some c \<Rightarrow> [[]] | None \<Rightarrow> []) @ [[conn_handle conn]]"
      using Cons.prems by (auto simp: host_step_inbound held_inv_iff split: option.splits)
    have inv': "held_inv (s\<lparr>connRef := Some conn\<rparr>) [conn_handle conn]"
      by (simp add: held_inv_iff)
    have act: "length act \<le> 1" using Cons.prems by (auto simp: held_inv_iff)
    have "host_run s act (Inbound conn # evs) =
            act # ((case connRef s of Some c \<Rightarrow> [[]] | None \<Rightarrow> []) @ [[conn_handle conn]])
              @ host_run (s\<lparr>connRef := Some conn\<rparr>) [conn_handle conn] evs"
      using ms by (simp add: after_event_def host_step_inbound split: option.splits)
    then show ?thesis
      using Cons.IH[OF inv'] act Inbound by (auto split: option.splits)
  next
    case HeldOpen
    show ?thesis
    proof (cases "connRef s")
      case None
      then have "host_run s act (HeldOpen # evs) = act # host_run s act evs"
        by (simp add: after_event_def host_step_def)
      then show ?thesis using Cons.IH[OF Cons.prems] Cons.prems HeldOpen
        by (auto simp: held_inv_iff)
    next
      case (Some c)
      let ?s' = "on_conn_open (s\<lparr>connRef := Some (c\<lparr>conn_open := True\<rparr>)\<rparr>) c"
      have inv': "held_inv ?s' act"
        using Cons.prems Some by (auto simp: held_inv_iff on_conn_open_def)
      have "host_run s act (HeldOpen # evs) = act # host_run ?s' act evs"
        using Some by (simp add: after_event_def host_step_def)
      then show ?thesis using Cons.IH[OF inv'] Cons.prems HeldOpen
        by (auto simp: held_inv_iff)
    qed
  next
    case (HeldData d)
    have inv': "held_inv (on_conn_data s d) act"
      using Cons.prems by (auto simp: held_inv_iff on_conn_data_def)
    have "host_run s act (HeldData d # evs) =
            act # host_run (case connRef s of Some c \<Rightarrow> on_conn_data s d | None \<Rightarrow> s) act evs"
      by (simp add: after_event_def host_step_def split: option.splits)
    then show ?thesis using Cons.IH[OF inv'] Cons.IH[OF Cons.prems] Cons.prems HeldData
      by (auto simp: held_inv_iff split: option.splits)
  next
    case HeldClose
    show ?thesis
    proof (cases "connRef s")
      case None
      then have "host_run s act (HeldClose # evs) = act # host_run s act evs"
        by (simp add: after_event_def host_step_def)
      then show ?thesis using Cons.IH[OF Cons.prems] Cons.prems HeldClose
        by (auto simp: held_inv_iff)
    next
      case (Some c)
      have inv': "held_inv (on_conn_close s) []"
        by (simp add: held_inv_iff)
      have "removeAll (conn_handle c) act = []"
        using Cons.prems Some by (auto simp: held_inv_iff)
      then have "host_run s act (HeldClose # evs) = [] # host_run (on_conn_close s) [] evs"
        using Some by (simp add: after_event_def host_step_def)
      then show ?thesis using Cons.IH[OF inv'] HeldClose by auto
    qed
  next
    case HeldError
    have inv': "held_inv (on_conn_error s) act"
      using Cons.prems by (auto simp: held_inv_iff on_conn_error_def)
    have "host_run s act (HeldError # evs) =
            act # host_run (case connRef s of Some c \<Rightarrow> on_conn_error s | None \<Rightarrow> s) act evs"
      by (simp add: after_event_def host_step_def split: option.splits)
    then show ?thesis using Cons.IH[OF inv'] Cons.IH[OF Cons.prems] Cons.prems HeldError
      by (auto simp: held_inv_iff split: option.splits)
  qed
qed

text \<open>
  Claim C5. When an inbound connection arrives while a connection is held, the hook
  calls \<open>close\<close> on the held one first and only then holds the new one and installs its
  handlers; with none held it just accepts. So in every run of a host session, made of
  inbound connections and of events of the held connection, at most one connection is
  active after every single call and event.
\<close>

theorem host_closes_before_accepting:
  "(connRef s = Some old \<longrightarrow>
      on_peer_connection s new =
        (s\<lparr>connRef := Some new\<rparr>, [ConnClose (conn_handle old), ConnOn (conn_handle new)]))
   \<and> (connRef s = None \<longrightarrow>
      on_peer_connection s new = (s\<lparr>connRef := Some new\<rparr>, [ConnOn (conn_handle new)]))
   \<and> (\<forall>m \<in> set (host_run initial_remote [] evs). length m \<le> 1)"
proof -
  have "held_inv initial_remote []" by (simp add: held_inv_iff)
  from host_run_at_most_one[OF this]
  show ?thesis
    by (simp add: on_peer_connection_def setupConnectionHandlers_def)
qed

theorem host_closes_before_accepting_witness:
  "on_peer_connection
      (initial_remote\<lparr>connRef := Some \<lparr>conn_handle = 1, conn_peer = js ''a'', conn_open = True\<rparr>\<rparr>)
      \<lparr>conn_handle = 2, conn_peer = js ''b'', conn_open = False\<rparr>
    = (initial_remote\<lparr>connRef := Some \<lparr>conn_handle = 2, conn_peer = js ''b'', conn_open = False\<rparr>\<rparr>,
       [ConnClose 1, ConnOn 2])
   \<and> on_peer_connection initial_remote \<lparr>conn_handle = 2, conn_peer = js ''b'', conn_open = False\<rparr>
    = (initial_remote\<lparr>connRef := Some \<lparr>conn_handle = 2, conn_peer = js ''b'', conn_open = False\<rparr>\<rparr>,
       [ConnOn 2])
   \<and> host_run initial_remote []
        [Inbound \<lparr>conn_handle = 1, conn_peer = js ''a'', conn_open = False\<rparr>, HeldOpen,
         Inbound \<lparr>conn_handle = 2, conn_peer = js ''b'', conn_open = False\<rparr>]
      = [[], [1], [1], [1], [], [2]]
   \<and> map length [[], [1], [1], [1], [], [2::nat]] = [0, 1, 1, 1, 0, 1]"
  using host_closes_before_accepting
     [of "initial_remote\<lparr>connRef := Some \<lparr>conn_handle = 1, conn_peer = js ''a'', conn_open = True\<rparr>\<rparr>"
         "\<lparr>conn_handle = 1, conn_peer = js ''a'', conn_open = True\<rparr>"
         "\<lparr>conn_handle = 2, conn_peer = js ''b'', conn_open = False\<rparr>"
         "[Inbound \<lparr>conn_handle = 1, conn_peer = js ''a'', conn_open = False\<rparr>, HeldOpen,
           Inbound \<lparr>conn_handle = 2, conn_peer = js ''b'', conn_open = False\<rparr>]"]
    host_closes_before_accepting
     [of initial_remote
         "\<lparr>conn_handle = 1, conn_peer = js ''a'', conn_open = True\<rparr>"
         "\<lparr>conn_handle = 2, conn_peer = js ''b'', conn_open = False\<rparr>" "[]"]
  by (simp add: initial_remote_def host_step_def on_peer_connection_def setupConnectionHandlers_def
        after_event_def on_conn_open_def Let_def)

section \<open>Proofs: stream end and disconnect in the serial hook\<close>

text \<open>
  In \<^verbatim>\<open>src/hooks/useSerial.ts\<close> the end of the stream flushes the buffer: text that is
  not empty after trimming is emitted, trimmed, and the buffer is emptied. The second
  copy of the hook leaves the state as it is.
\<close>

lemma flush_at_done:
  "rr_value r = None \<Longrightarrow> rr_done r \<Longrightarrow> trim (readBuffer s) \<noteq> [] \<Longrightarrow>
   read_until_done s (r # rs) =
     s\<lparr>lastMessage := Some (trim (readBuffer s)), emitted := emitted s @ [trim (readBuffer s)],
       readBuffer := []\<rparr>"
  by (simp add: processLine_def)

lemma no_flush_at_done_v2:
  "rr_value r = None \<Longrightarrow> rr_done r \<Longrightarrow> read_until_done_v2 s (r # rs) = s"
  by simp

lemma frame_loop_no_newline:
  "NL \<notin> set (readBuffer s) \<Longrightarrow> frame_loop s = s"
  by (subst frame_loop.simps) (simp add: indexOf_def)

text \<open>
  Claim C8. The device sends the two letters AB without a newline and the stream ends.
  The read loop of \<^verbatim>\<open>src/unnamed/part_002\<close> emits nothing and keeps AB in the buffer;
  the read loop of \<^verbatim>\<open>src/hooks/useSerial.ts\<close> emits the line AB and empties the buffer.
\<close>

theorem read_loop_v2_drops_unterminated_tail:
  "emitted (read_until_done_v2 (connected 0 new_TextDecoder)
      [\<lparr>rr_value = Some [0x41, 0x42], rr_done = False\<rparr>, \<lparr>rr_value = None, rr_done = True\<rparr>]) = []
   \<and> readBuffer (read_until_done_v2 (connected 0 new_TextDecoder)
      [\<lparr>rr_value = Some [0x41, 0x42], rr_done = False\<rparr>, \<lparr>rr_value = None, rr_done = True\<rparr>]) = [0x41, 0x42]
   \<and> emitted (read_until_done (connected 0 new_TextDecoder)
      [\<lparr>rr_value = Some [0x41, 0x42], rr_done = False\<rparr>, \<lparr>rr_value = None, rr_done = True\<rparr>]) = [[0x41, 0x42]]
   \<and> readBuffer (read_until_done (connected 0 new_TextDecoder)
      [\<lparr>rr_value = Some [0x41, 0x42], rr_done = False\<rparr>, \<lparr>rr_value = None, rr_done = True\<rparr>]) = []"
proof -
  have d: "decode_stream new_TextDecoder [0x41, 0x42] = (new_TextDecoder\<lparr>bom_seen := True\<rparr>, [0x41, 0x42])"
    by (simp add: new_TextDecoder_def utf8_handler_def utf8_lead_def)
  have td: "textDecoder (connected 0 new_TextDecoder) = new_TextDecoder"
    by (simp add: connected_def)
  have f: "feed (connected 0 new_TextDecoder) [0x41, 0x42] =
             (connected 0 new_TextDecoder)\<lparr>textDecoder := new_TextDecoder\<lparr>bom_seen := True\<rparr>,
                readBuffer := [0x41, 0x42]\<rparr>"
    unfolding feed_def td d by (simp add: frame_loop_no_newline connected_def NL_def)
  have t: "trim [0x41, 0x42] = [0x41, 0x42]"
    by (simp add: trim_def is_js_space_def)
  show ?thesis
    by (simp add: f t processLine_def) (simp add: connected_def)
qed

text \<open>
  Claim C9, as stated, fails. \<open>disconnect\<close> on a connected adapter returns with the
  adapter still connected: only \<open>keepReading\<close> has changed, and the teardown is a timer
  of 100 ms.
\<close>

theorem disconnect_returns_before_teardown:
  "disconnect (Inr ()) (connected 0 new_TextDecoder) =
     Inr ((connected 0 new_TextDecoder)\<lparr>keepReading := False\<rparr>, [Teardown 100])
   \<and> isConnected ((connected 0 new_TextDecoder)\<lparr>keepReading := False\<rparr>)
   \<and> \<not> is_disconnected ((connected 0 new_TextDecoder)\<lparr>keepReading := False\<rparr>)"
  by (simp add: disconnect_def try_catch_def connected_def is_disconnected_def)

lemma disconnect_returns:
  "disconnect c s = Inr (s\<lparr>keepReading := False\<rparr>, [Teardown 100])"
  by (cases c; cases "reader s") (simp_all add: disconnect_def try_catch_def)

lemma teardown_returns:
  "teardown k s = Inr (s\<lparr>port := None, isConnected := False, readBuffer := []\<rparr>)"
  by (cases k; cases "port s") (simp_all add: teardown_def try_catch_def)

text \<open>
  Claim C9, amended. From any state, and whether or not cancelling the reader and
  closing the port throw, two calls of \<open>disconnect\<close> both return without an exception,
  each setting one teardown timer of 100 ms. When a call returns, before its teardown has
  run, the connection state is still what it was before the call: \<open>isConnected\<close> and the
  port are unchanged. The adapter is disconnected once the teardown of a call has run:
  after the first teardown, after the second call that follows it, and after the second
  teardown; likewise when both calls are made before either teardown runs, in which case
  the connection state after both calls is still the one before the first.
\<close>

theorem disconnect_twice_after_teardown:
  "(\<exists>s1 s2 s3 s4.
      disconnect c1 s = Inr (s1, [Teardown 100])
      \<and> isConnected s1 = isConnected s \<and> port s1 = port s
      \<and> teardown k1 s1 = Inr s2 \<and> is_disconnected s2
      \<and> disconnect c2 s2 = Inr (s3, [Teardown 100])
      \<and> isConnected s3 = isConnected s2 \<and> port s3 = port s2 \<and> is_disconnected s3
      \<and> teardown k2 s3 = Inr s4 \<and> is_disconnected s4 \<and> readBuffer s4 = [] \<and> \<not> keepReading s4)
   \<and> (\<exists>s1 s2 s3 s4.
      disconnect c1 s = Inr (s1, [Teardown 100])
      \<and> isConnected s1 = isConnected s \<and> port s1 = port s
      \<and> disconnect c2 s1 = Inr (s2, [Teardown 100])
      \<and> isConnected s2 = isConnected s \<and> port s2 = port s
      \<and> teardown k1 s2 = Inr s3 \<and> is_disconnected s3
      \<and> teardown k2 s3 = Inr s4 \<and> is_disconnected s4 \<and> readBuffer s4 = [] \<and> \<not> keepReading s4)"
  by (simp add: disconnect_returns teardown_returns is_disconnected_def)

text \<open>
  A connected adapter on port 0 whose reader fails to cancel and whose port fails to
  close: it is still connected and still holds the port when the first call returns, and
  is disconnected after the teardown and through the second call.
\<close>

theorem disconnect_twice_after_teardown_witness:
  "(\<exists>s1 s2 s3 s4.
      disconnect (Inl (Exn ''cancel failed'')) (connected 0 new_TextDecoder) = Inr (s1, [Teardown 100])
      \<and> isConnected s1 \<and> port s1 = Some 0
      \<and> teardown (Inl (Exn ''close failed'')) s1 = Inr s2 \<and> is_disconnected s2
      \<and> disconnect (Inr ()) s2 = Inr (s3, [Teardown 100]) \<and> is_disconnected s3
      \<and> teardown (Inr ()) s3 = Inr s4 \<and> is_disconnected s4 \<and> readBuffer s4 = [] \<and> \<not> keepReading s4)"
proof -
  have c: "isConnected (connected 0 new_TextDecoder)" "port (connected 0 new_TextDecoder) = Some 0"
    by (simp_all add: connected_def)
  from disconnect_twice_after_teardown [of "Inl (Exn ''cancel failed'')" "connected 0 new_TextDecoder"
      "Inl (Exn ''close failed'')" "Inr ()" "Inr ()"]
  obtain s1 s2 s3 s4 where
    "disconnect (Inl (Exn ''cancel failed'')) (connected 0 new_TextDecoder) = Inr (s1, [Teardown 100])"
    "isConnected s1 = isConnected (connected 0 new_TextDecoder)"
    "port s1 = port (connected 0 new_TextDecoder)"
    "teardown (Inl (Exn ''close failed'')) s1 = Inr s2" "is_disconnected s2"
    "disconnect (Inr ()) s2 = Inr (s3, [Teardown 100])" "is_disconnected s3"
    "teardown (Inr ()) s3 = Inr s4" "is_disconnected s4" "readBuffer s4 = []" "\<not> keepReading s4"
    by blast
  with c show ?thesis by auto
qed


end
